theory Spec2Isabelle
  imports Complex_Main
begin

section \<open>Values, tensors and errors\<close>

text \<open>
  The program computes with one-dimensional torch tensors of floating-point numbers.
  A finite number is a real. A division by zero and the square root of a negative number
  give a non-finite value (\<open>inf\<close> or \<open>NaN\<close>), which is \<open>None\<close> in the type
  \<open>tval\<close>, and every operation on a non-finite value stays non-finite in the
  expressions of this program (they end in a multiplication, and no divisor is infinite
  while the \<open>beta\<close> of the schedule lie in \<open>[0, 1]\<close>). An exception is a value of
  \<open>error\<close>, returned with \<open>Inl\<close>.

  The operations \<open>t_sqrt\<close>, \<open>t_mul\<close>, \<open>t_div\<close> and \<open>t_neg\<close> are those of exact
  arithmetic; the section on floating-point arithmetic below adds the rounding of
  binary32.
\<close>

datatype error = IndexError | RuntimeError | ConfigurationError | NumericalInstabilityError

type_synonym tval = "real option"

definition t_sqrt :: "tval \<Rightarrow> tval" where
  "t_sqrt a = (case a of None \<Rightarrow> None
                | Some x \<Rightarrow> if x < 0 then None else Some (sqrt x))"

definition t_mul :: "tval \<Rightarrow> tval \<Rightarrow> tval" where
  "t_mul a b = (case a of None \<Rightarrow> None
                 | Some x \<Rightarrow> (case b of None \<Rightarrow> None | Some y \<Rightarrow> Some (x * y)))"

definition t_div :: "tval \<Rightarrow> tval \<Rightarrow> tval" where
  "t_div a b = (case a of None \<Rightarrow> None
                 | Some x \<Rightarrow> (case b of None \<Rightarrow> None
                     | Some y \<Rightarrow> if y = 0 then None else Some (x / y)))"

definition t_neg :: "tval \<Rightarrow> tval" where
  "t_neg a = map_option uminus a"

text \<open>
  \<open>tensor[i]\<close> for a Python integer \<open>i\<close>: a negative index counts from the end,
  an index outside the tensor raises \<open>IndexError\<close>.
\<close>

definition tget :: "'a list \<Rightarrow> int \<Rightarrow> error + 'a" where
  "tget xs i =
     (if 0 \<le> i \<and> i < int (length xs) then Inr (xs ! nat i)
      else if i < 0 \<and> - int (length xs) \<le> i then Inr (xs ! nat (int (length xs) + i))
      else Inl IndexError)"

text \<open>Sequencing of computations that may raise.\<close>

definition bind :: "error + 'a \<Rightarrow> ('a \<Rightarrow> error + 'b) \<Rightarrow> error + 'b" where
  "bind m f = (case m of Inl e \<Rightarrow> Inl e | Inr x \<Rightarrow> f x)"

section \<open>Floating-point arithmetic\<close>

text \<open>
  The tensors of the program hold binary32 numbers (\<open>torch.float32\<close>, the default), and
  an operation on them stores the binary32 number nearest to its exact result, a tie
  going to the even mantissa. \<open>rnd p emin\<close> is this rounding for the binary format with
  \<open>p\<close> bits of precision whose normal numbers have the exponents from \<open>emin\<close>: the
  exact result is divided by the unit in the last place of its binade (of the binade of
  \<open>2 ^ emin\<close> for a subnormal number) and \<open>rne\<close> rounds the quotient to an integer.
  \<open>t_rnd\<close> adds the overflow: a rounded result of magnitude \<open>2 ^ (emax + 1)\<close> or more
  is infinite.
\<close>

definition rne :: "real \<Rightarrow> int" where
  "rne q = (let f = \<lfloor>q\<rfloor> in
     if q - of_int f < 1 / 2 then f
     else if 1 / 2 < q - of_int f then f + 1
     else if even f then f else f + 1)"

definition expo :: "real \<Rightarrow> int" where
  "expo x = \<lfloor>log 2 \<bar>x\<bar>\<rfloor>"

definition ulp_exp :: "nat \<Rightarrow> int \<Rightarrow> real \<Rightarrow> int" where
  "ulp_exp p emin x = max (expo x) emin - (int p - 1)"

definition rnd :: "nat \<Rightarrow> int \<Rightarrow> real \<Rightarrow> real" where
  "rnd p emin x =
     (if x = 0 then 0
      else of_int (rne (x / 2 powi ulp_exp p emin x)) * 2 powi ulp_exp p emin x)"

definition t_rnd :: "nat \<Rightarrow> int \<Rightarrow> int \<Rightarrow> real \<Rightarrow> tval" where
  "t_rnd p emin emax x =
     (if 2 powi (emax + 1) \<le> \<bar>rnd p emin x\<bar> then None else Some (rnd p emin x))"

text \<open>
  An arithmetic says how the result of an operation is stored in a tensor (\<open>store\<close>)
  and how \<open>torch.cumprod\<close> stores its running product (\<open>accum\<close>). In \<open>binary32\<close>,
  the arithmetic of the program, a result is rounded to binary32, and the running
  product of \<open>torch.cumprod\<close>, which the CPU kernel keeps in double precision, to
  binary64. In \<open>exact\<close> nothing is rounded: it is the arithmetic of the reals.
\<close>

record arith =
  store :: "real \<Rightarrow> tval"
  accum :: "real \<Rightarrow> tval"

definition binary32 :: arith where
  "binary32 = \<lparr>store = t_rnd 24 (- 126) 127, accum = t_rnd 53 (- 1022) 1023\<rparr>"

definition exact :: arith where
  "exact = \<lparr>store = Some, accum = Some\<rparr>"

definition a_sub :: "arith \<Rightarrow> tval \<Rightarrow> tval \<Rightarrow> tval" where
  "a_sub ar a b = (case a of None \<Rightarrow> None
                    | Some x \<Rightarrow> (case b of None \<Rightarrow> None | Some y \<Rightarrow> store ar (x - y)))"

definition a_mul :: "arith \<Rightarrow> tval \<Rightarrow> tval \<Rightarrow> tval" where
  "a_mul ar a b = (case a of None \<Rightarrow> None
                    | Some x \<Rightarrow> (case b of None \<Rightarrow> None | Some y \<Rightarrow> store ar (x * y)))"

definition a_div :: "arith \<Rightarrow> tval \<Rightarrow> tval \<Rightarrow> tval" where
  "a_div ar a b = (case a of None \<Rightarrow> None
                    | Some x \<Rightarrow> (case b of None \<Rightarrow> None
                        | Some y \<Rightarrow> if y = 0 then None else store ar (x / y)))"

definition a_sqrt :: "arith \<Rightarrow> tval \<Rightarrow> tval" where
  "a_sqrt ar a = (case a of None \<Rightarrow> None
                   | Some x \<Rightarrow> if x < 0 then None else store ar (sqrt x))"

subsection \<open>The torch functions the program calls\<close>

text \<open>
  \<open>torch.linspace(start, end, steps)\<close>: \<open>steps\<close> points from \<open>start\<close> to
  \<open>end\<close>, both included, evenly spaced; one point is \<open>start\<close>, no point is the
  empty tensor. (A negative \<open>steps\<close> raises; the caller below checks it.)
\<close>

definition linspace :: "real \<Rightarrow> real \<Rightarrow> nat \<Rightarrow> real list" where
  "linspace start end steps =
     (if steps = 1 then [start]
      else map (\<lambda>i. start + real i * ((end - start) / real (steps - 1))) [0..<steps])"

text \<open>
  \<open>torch.cumprod(x, dim = 0)\<close>: element \<open>i\<close> is the product of \<open>x[0..i]\<close>,
  written here as the direct product of each prefix.
\<close>

definition cumprod :: "real list \<Rightarrow> real list" where
  "cumprod xs = map (\<lambda>i. prod_list (take (Suc i) xs)) [0..<length xs]"

text \<open>
  The same function in an arithmetic, as the kernel computes it: a running product
  \<open>c\<close> that starts at \<open>1\<close>, is multiplied by each element in turn, and is stored
  into the result after each multiplication.
\<close>

fun cum_loop :: "arith \<Rightarrow> tval \<Rightarrow> tval list \<Rightarrow> tval list" where
  "cum_loop ar c [] = []"
| "cum_loop ar c (x # xs) =
     (let c' = (case c of None \<Rightarrow> None
                | Some u \<Rightarrow> (case x of None \<Rightarrow> None | Some v \<Rightarrow> accum ar (u * v)))
      in (case c' of None \<Rightarrow> None | Some w \<Rightarrow> store ar w) # cum_loop ar c' xs)"

definition cumprod_fp :: "arith \<Rightarrow> tval list \<Rightarrow> tval list" where
  "cumprod_fp ar xs = cum_loop ar (Some 1) xs"

text \<open>
  \<open>torch.allclose(input, other, rtol, atol)\<close>: every element satisfies
  \<open>|input - other| \<le> atol + rtol * |other|\<close>; a \<open>NaN\<close> is close to nothing.
  Tensors of different lengths are broadcast when one of them has one element, and
  the call raises otherwise (\<open>None\<close>). The tensors compared here hold a non-finite
  value only as the square root of a negative number, which is a \<open>NaN\<close>.
\<close>

definition isclose :: "real \<Rightarrow> real \<Rightarrow> real \<Rightarrow> real \<Rightarrow> bool" where
  "isclose rtol atol a b = (\<bar>a - b\<bar> \<le> atol + rtol * \<bar>b\<bar>)"

definition t_isclose :: "real \<Rightarrow> real \<Rightarrow> tval \<Rightarrow> tval \<Rightarrow> bool" where
  "t_isclose rtol atol a b =
     (case a of None \<Rightarrow> False
      | Some x \<Rightarrow> (case b of None \<Rightarrow> False | Some y \<Rightarrow> isclose rtol atol x y))"

definition broadcast :: "'a list \<Rightarrow> 'a list \<Rightarrow> ('a \<times> 'a) list option" where
  "broadcast xs ys =
     (if length xs = length ys then Some (zip xs ys)
      else if length xs = 1 then Some (map (\<lambda>y. (hd xs, y)) ys)
      else if length ys = 1 then Some (map (\<lambda>x. (x, hd ys)) xs)
      else None)"

definition allclose_with :: "('a \<Rightarrow> 'a \<Rightarrow> bool) \<Rightarrow> 'a list \<Rightarrow> 'a list \<Rightarrow> bool option" where
  "allclose_with close xs ys =
     map_option (list_all (\<lambda>(x, y). close x y)) (broadcast xs ys)"

definition rtol_default :: real where "rtol_default = 1 / 100000"
definition atol_default :: real where "atol_default = 1 / 100000000"

section \<open>The reference computations of \<open>tests/test_dp_ddpm.py\<close>\<close>

text \<open>
  \<open>gen_beta_schedule(beta1, betaT, T)\<close>: \<open>T\<close> points of \<open>torch.linspace\<close> after
  a leading zero. \<open>torch.linspace\<close> raises a \<open>RuntimeError\<close> on a negative number
  of steps.
\<close>

definition gen_beta_schedule :: "real \<Rightarrow> real \<Rightarrow> int \<Rightarrow> error + real list" where
  "gen_beta_schedule beta1 betaT T =
     (if T < 0 then Inl RuntimeError
      else let result = linspace beta1 betaT (nat T);
               result0 = [0]
           in Inr (result0 @ result))"

definition alpha_from_beta :: "real list \<Rightarrow> real list" where
  "alpha_from_beta beta = map (\<lambda>b. 1 - b) beta"

definition calc_alpha_bar :: "real list \<Rightarrow> real list" where
  "calc_alpha_bar alpha = cumprod alpha"

definition calc_forward_scale :: "real list \<Rightarrow> tval list" where
  "calc_forward_scale alpha_bar = map (\<lambda>a. t_sqrt (Some a)) alpha_bar"

definition calc_forward_var :: "real list \<Rightarrow> real list" where
  "calc_forward_var alpha_bar = map (\<lambda>a. 1 - a) alpha_bar"

text \<open>
  The four functions above are written in exact arithmetic, over lists of reals. The
  same functions in an arithmetic \<open>ar\<close>, over tensors whose elements can be
  non-finite, follow; \<open>beta\<close> is the tensor of the schedule, a list of binary32
  numbers. With \<open>exact\<close> for \<open>ar\<close> they are the four functions above
  (\<open>alpha_from_beta_exact\<close>, \<open>calc_alpha_bar_exact\<close> below).
\<close>

definition alpha_from_beta_fp :: "arith \<Rightarrow> real list \<Rightarrow> tval list" where
  "alpha_from_beta_fp ar beta = map (\<lambda>b. a_sub ar (Some 1) (Some b)) beta"

definition calc_alpha_bar_fp :: "arith \<Rightarrow> tval list \<Rightarrow> tval list" where
  "calc_alpha_bar_fp ar alpha = cumprod_fp ar alpha"

definition calc_forward_scale_fp :: "arith \<Rightarrow> tval list \<Rightarrow> tval list" where
  "calc_forward_scale_fp ar alpha_bar = map (a_sqrt ar) alpha_bar"

definition calc_forward_var_fp :: "arith \<Rightarrow> tval list \<Rightarrow> tval list" where
  "calc_forward_var_fp ar alpha_bar = map (\<lambda>a. a_sub ar (Some 1) a) alpha_bar"

text \<open>
  The closed forms of the backward step. \<open>x0\<close> is a Python number: the multiplication
  stores it as an element of the tensor's type first.
\<close>

definition calc_imu ::
  "arith \<Rightarrow> tval list \<Rightarrow> tval list \<Rightarrow> real list \<Rightarrow> int \<Rightarrow> real \<Rightarrow> error + (tval \<times> tval)" where
  "calc_imu ar alpha alpha_bar beta t x0 =
     bind (tget alpha t) (\<lambda>a_t.
     bind (tget alpha_bar (t - 1)) (\<lambda>ab_p.
     bind (tget alpha_bar t) (\<lambda>ab_t.
     bind (tget alpha_bar (t - 1)) (\<lambda>ab_p'.
     bind (tget beta t) (\<lambda>b_t.
     bind (tget alpha_bar t) (\<lambda>ab_t'.
       let scale = a_div ar (a_mul ar (a_sqrt ar a_t) (a_sub ar (Some 1) ab_p))
                     (a_sub ar (Some 1) ab_t);
           bias = a_mul ar
                    (a_div ar (a_mul ar (a_sqrt ar ab_p') (Some b_t)) (a_sub ar (Some 1) ab_t'))
                    (store ar x0)
       in Inr (scale, bias)))))))"

definition calc_imu_eps_parts ::
  "arith \<Rightarrow> tval list \<Rightarrow> tval list \<Rightarrow> real list \<Rightarrow> int \<Rightarrow> error + (tval \<times> tval)" where
  "calc_imu_eps_parts ar alpha alpha_bar beta t =
     bind (tget alpha t) (\<lambda>a_t.
     bind (tget beta t) (\<lambda>b_t.
     bind (tget alpha t) (\<lambda>a_t'.
     bind (tget alpha_bar t) (\<lambda>ab_t.
       let p0 = a_div ar (Some 1) (a_sqrt ar a_t);
           p1 = a_div ar (t_neg (Some b_t))
                  (a_mul ar (a_sqrt ar a_t') (a_sqrt ar (a_sub ar (Some 1) ab_t)))
       in Inr (p0, p1)))))"

definition calc_ivar ::
  "arith \<Rightarrow> tval list \<Rightarrow> tval list \<Rightarrow> real list \<Rightarrow> int \<Rightarrow> error + tval" where
  "calc_ivar ar alpha alpha_bar beta t =
     bind (tget alpha_bar (t - 1)) (\<lambda>ab_p.
     bind (tget alpha_bar t) (\<lambda>ab_t.
     bind (tget beta t) (\<lambda>b_t.
       Inr (a_mul ar (a_div ar (a_sub ar (Some 1) ab_p) (a_sub ar (Some 1) ab_t)) (Some b_t)))))"


text \<open>
  A variance schedule, as the test reads it: \<open>p_steps.scale\<close>, \<open>p_steps.var\<close>,
  and the sequence \<open>beta\<close> itself.
\<close>

record vsched =
  beta :: "real list"
  scale :: "tval list"
  var :: "real list"

text \<open>
  \<open>TestDDPM.test_linear_schedule\<close>, with the schedule generator under test as the
  parameter \<open>gen\<close>. The body of the loop is \<open>linear_schedule_case\<close>; the test passes
  when no call raises and every assertion holds. \<open>torch.allclose\<close> is called with
  its default tolerances.
\<close>

definition linear_schedule_case ::
  "(int \<Rightarrow> real \<Rightarrow> real \<Rightarrow> error + vsched) \<Rightarrow> real \<Rightarrow> real \<Rightarrow> int \<Rightarrow> bool" where
  "linear_schedule_case gen beta1 betaT T =
     (case gen_beta_schedule beta1 betaT T of
        Inl e \<Rightarrow> False
      | Inr sched_step_null \<Rightarrow>
          (let scale_step_null = map (\<lambda>b. t_sqrt (Some (1 - b))) sched_step_null;
               var_step_null = sched_step_null
           in case gen T beta1 betaT of
                Inl e \<Rightarrow> False
              | Inr p_steps \<Rightarrow>
                  allclose_with (isclose rtol_default atol_default)
                    var_step_null (var p_steps) = Some True
                  \<and> allclose_with (t_isclose rtol_default atol_default)
                    scale_step_null (scale p_steps) = Some True))"

definition test_linear_schedule :: "(int \<Rightarrow> real \<Rightarrow> real \<Rightarrow> error + vsched) \<Rightarrow> bool" where
  "test_linear_schedule gen =
     (let beta1_list = [0, 1 / 10000, 1];
          betaT_list = [1 / 100, 2 / 100, 1];
          T_list = [0, 1, 10, 1000];
          search_space = List.product beta1_list (List.product betaT_list T_list)
      in list_all (\<lambda>(beta1, betaT, T). linear_schedule_case gen beta1 betaT T) search_space)"

section \<open>The schedule generator and the diffusion engine\<close>

text \<open>
  Modelled from the spec: \<open>generate_linear_schedule\<close> (\<open>jetgen/diffusion/vsched.py\<close>)
  is not among the sources; only its test is. The model follows sections 3 and 4.1 of the
  specification: \<open>beta[0] = 0\<close>, \<open>beta[1..T]\<close> a linear interpolation between the two
  bounds, \<open>scale[t] = sqrt(1 - beta[t])\<close>, \<open>var[t] = beta[t]\<close>. Section 4.1 lists as
  failures, each a \<open>ConfigurationError\<close>: \<open>beta_low > beta_high\<close>, a bound outside
  \<open>[0, 1)\<close>, and \<open>T < 0\<close>. The model keeps of this check what the test of the sources
  leaves standing: \<open>test_linear_schedule\<close> calls the generator with \<open>beta1 = 1\<close> and
  \<open>betaT = 0.01\<close>, and with bounds equal to \<open>1\<close>, and compares the schedule it
  returns (\<open>test_linear_schedule_needs_schedule\<close> below), so the order of the bounds
  is not checked and \<open>1\<close> is accepted; a bound below \<open>0\<close> or above \<open>1\<close> and a
  negative \<open>T\<close> are errors.
\<close>

definition generate_linear_schedule :: "int \<Rightarrow> real \<Rightarrow> real \<Rightarrow> error + vsched" where
  "generate_linear_schedule T beta_low beta_high =
     (if T < 0 \<or> beta_low < 0 \<or> 1 < beta_low \<or> beta_high < 0 \<or> 1 < beta_high
      then Inl ConfigurationError
      else let b = 0 # linspace beta_low beta_high (nat T)
           in Inr \<lparr>beta = b, scale = map (\<lambda>x. t_sqrt (Some (1 - x))) b, var = b\<rparr>)"

text \<open>
  Modelled from the spec: the class \<open>DDPM\<close> (\<open>jetgen/diffusion/ddpm.py\<close>) is not
  among the sources. Section 4.2: the engine is built from a schedule, a seed and a
  device, and computes once \<open>alpha\<close>, \<open>alpha_bar\<close> (a running product in increasing
  \<open>t\<close>) and the forward-jump arrays \<open>scale = sqrt(alpha_bar)\<close>,
  \<open>var = 1 - alpha_bar\<close> (\<open>_fwd_p_jumps\<close> in the test).
\<close>

record fwd_jumps =
  jump_scale :: "tval list"
  jump_var :: "real list"

record engine =
  schedule :: vsched
  seed :: int
  device :: string
  eng_alpha :: "real list"
  eng_alpha_bar :: "real list"
  fwd_p_jumps :: fwd_jumps

fun running_prod :: "real \<Rightarrow> real list \<Rightarrow> real list" where
  "running_prod acc [] = []"
| "running_prod acc (x # xs) = (acc * x) # running_prod (acc * x) xs"

definition new_engine :: "vsched \<Rightarrow> int \<Rightarrow> string \<Rightarrow> engine" where
  "new_engine sched sd dev =
     (let a = map (\<lambda>b. 1 - b) (beta sched);
          ab = running_prod 1 a
      in \<lparr>schedule = sched, seed = sd, device = dev, eng_alpha = a, eng_alpha_bar = ab,
          fwd_p_jumps = \<lparr>jump_scale = map (\<lambda>x. t_sqrt (Some x)) ab,
                          jump_var = map (\<lambda>x. 1 - x) ab\<rparr>\<rparr>)"

definition horizon :: "engine \<Rightarrow> int" where
  "horizon e = int (length (beta (schedule e))) - 1"

text \<open>
  Modelled from the spec, section 4.2: \<open>forward_jump_params(t)\<close> is a read of the cached
  arrays, and a \<open>t\<close> outside \<open>[0, T]\<close> is an \<open>IndexError\<close>.
\<close>

definition forward_jump_params :: "engine \<Rightarrow> int \<Rightarrow> error + (tval \<times> real)" where
  "forward_jump_params e t =
     (if t < 0 \<or> horizon e < t then Inl IndexError
      else Inr (jump_scale (fwd_p_jumps e) ! nat t, jump_var (fwd_p_jumps e) ! nat t))"

text \<open>
  Modelled from the spec, section 4.3: \<open>posterior_step(t, x0)\<close> (\<open>get_bkw_p_step\<close> in
  the test) is valid for \<open>t\<close> in \<open>[1, T]\<close>, is special-cased at \<open>t = 1\<close> to
  \<open>(0, x0, 0)\<close>, signals \<open>NumericalInstabilityError\<close> on a zero denominator
  \<open>1 - alpha_bar[t]\<close>, and is the closed form of that section otherwise.
\<close>

definition posterior_step :: "engine \<Rightarrow> int \<Rightarrow> real \<Rightarrow> error + (tval \<times> tval \<times> tval)" where
  "posterior_step e t x0 =
     (if t < 1 \<or> horizon e < t then Inl IndexError
      else if t = 1 then Inr (Some 0, Some x0, Some 0)
      else
        let a_t = eng_alpha e ! nat t;
            ab_p = eng_alpha_bar e ! nat (t - 1);
            ab_t = eng_alpha_bar e ! nat t;
            b_t = beta (schedule e) ! nat t
        in if 1 - ab_t = 0 then Inl NumericalInstabilityError
           else Inr (t_div (t_mul (t_sqrt (Some a_t)) (Some (1 - ab_p))) (Some (1 - ab_t)),
                     t_mul (t_div (t_mul (t_sqrt (Some ab_p)) (Some b_t)) (Some (1 - ab_t)))
                       (Some x0),
                     t_mul (t_div (Some (1 - ab_p)) (Some (1 - ab_t))) (Some b_t)))"

section \<open>Model initialisation: \<open>jetgen/models/funcs.py\<close>\<close>

text \<open>
  \<open>default_model_init(model, model_config, device)\<close> calls three functions of other
  modules: \<open>prepare_model\<close>, whose result it keeps, and \<open>init_weights\<close> and
  \<open>apply_sn\<close>, which it calls for their effect on the model. They are parameters
  here. Each acts on a state \<open>'s\<close> (the heap with the model's weights, and whatever
  else the call touches) and may raise; \<open>'m\<close> is a reference to a model. The
  configuration is a record with the two fields the function reads; its other fields
  are the extension of the record.
\<close>

record 'w model_config =
  weight_init :: 'w
  spectr_norm :: bool

definition default_model_init ::
  "('m \<Rightarrow> 'd \<Rightarrow> 's \<Rightarrow> 'e + ('m \<times> 's)) \<Rightarrow> ('m \<Rightarrow> 'w \<Rightarrow> 's \<Rightarrow> 'e + 's) \<Rightarrow> ('m \<Rightarrow> 's \<Rightarrow> 'e + 's) \<Rightarrow>
   'm \<Rightarrow> ('w, 'x) model_config_scheme \<Rightarrow> 'd \<Rightarrow> 's \<Rightarrow> 'e + ('m \<times> 's)" where
  "default_model_init prepare_model init_weights apply_sn model cfg dev s =
     (case prepare_model model dev s of
        Inl e \<Rightarrow> Inl e
      | Inr (model', s1) \<Rightarrow>
          (case init_weights model' (weight_init cfg) s1 of
             Inl e \<Rightarrow> Inl e
           | Inr s2 \<Rightarrow>
               if spectr_norm cfg
               then (case apply_sn model' s2 of
                       Inl e \<Rightarrow> Inl e
                     | Inr s3 \<Rightarrow> Inr (model', s3))
               else Inr (model', s2)))"

section \<open>Valid schedules\<close>

text \<open>
  The beta sequences the claims are about (section 3 of the specification): the sentinel
  \<open>beta[0] = 0\<close>, and \<open>beta[t]\<close> in the open interval \<open>(0, 1)\<close> for \<open>t \<ge> 1\<close>.
\<close>

definition valid_beta :: "real list \<Rightarrow> bool" where
  "valid_beta bs = (case bs of [] \<Rightarrow> False
                    | b0 # rest \<Rightarrow> b0 = 0 \<and> list_all (\<lambda>b. 0 < b \<and> b < 1) rest)"

section \<open>Rounding\<close>

lemma rne_lower: "\<lfloor>q\<rfloor> \<le> rne q"
  by (simp add: rne_def Let_def)

lemma rne_upper: "rne q \<le> \<lfloor>q\<rfloor> + 1"
  by (simp add: rne_def Let_def)

lemma rne_of_int: "rne (of_int n) = n"
  by (simp add: rne_def)

lemma rne_ge_of_int: "of_int n \<le> q \<Longrightarrow> n \<le> rne q"
  using rne_lower [of q] le_floor_iff [of n q] by linarith

lemma rne_le_of_int:
  assumes "q \<le> of_int n"
  shows "rne q \<le> n"
proof (cases "\<lfloor>q\<rfloor> < n")
  case True
  with rne_upper [of q] show ?thesis by simp
next
  case False
  with assms have "\<lfloor>q\<rfloor> = n"
    by (simp add: floor_le_iff not_less order_antisym le_floor_iff)
  with assms have "q = of_int n"
    by (metis of_int_floor_le order_antisym)
  then show ?thesis by (simp add: rne_of_int)
qed

lemma rne_mono:
  assumes "q \<le> q'"
  shows "rne q \<le> rne q'"
proof (cases "\<lfloor>q\<rfloor> < \<lfloor>q'\<rfloor>")
  case True
  with rne_upper [of q] rne_lower [of q'] show ?thesis by simp
next
  case False
  with assms have "\<lfloor>q\<rfloor> = \<lfloor>q'\<rfloor>"
    using floor_mono [of q q'] by simp
  with assms show ?thesis
    by (auto simp: rne_def Let_def)
qed

lemma powr_powi: "(2::real) powr real_of_int k = 2 powi k"
  by (simp add: powr_real_of_int power_int_def inverse_eq_divide power_one_over)

lemma powr_powi_Suc: "(2::real) powr (real_of_int k + 1) = 2 powi (k + 1)"
  using powr_powi [of "k + 1"] by simp

lemma expo_eq:
  assumes "0 < x" "2 powi e \<le> x" "x < 2 powi (e + 1)"
  shows "expo x = e"
proof -
  have "\<lfloor>log 2 x\<rfloor> = e"
    using assms by (subst floor_log_eq_powr_iff) (simp_all add: powr_powi powr_powi_Suc)
  with assms(1) show ?thesis by (simp add: expo_def)
qed

lemma expo_bounds:
  assumes "0 < x"
  shows "2 powi expo x \<le> x" and "x < 2 powi (expo x + 1)"
proof -
  have "\<lfloor>log 2 x\<rfloor> = expo x" using assms by (simp add: expo_def)
  then have "2 powr real_of_int (expo x) \<le> x \<and> x < 2 powr (real_of_int (expo x) + 1)"
    using assms by (subst (asm) floor_log_eq_powr_iff) simp_all
  then show "2 powi expo x \<le> x" and "x < 2 powi (expo x + 1)"
    by (simp_all only: powr_powi powr_powi_Suc)
qed

lemma expo_mono:
  assumes "0 < x" "x \<le> y"
  shows "expo x \<le> expo y"
  using assms by (simp add: expo_def floor_mono)

lemma expo_less:
  assumes "0 < x" "x < 2 powi k"
  shows "expo x < k"
proof (rule ccontr)
  assume "\<not> expo x < k"
  then have "(2::real) powi k \<le> 2 powi expo x" by (intro power_int_increasing) simp_all
  also have "\<dots> \<le> x" using assms(1) by (rule expo_bounds)
  finally show False using assms(2) by simp
qed

lemma expo_ge:
  assumes "0 < x" "2 powi k \<le> x"
  shows "k \<le> expo x"
proof (rule ccontr)
  assume "\<not> k \<le> expo x"
  then have "expo x + 1 \<le> k" by simp
  then have "(2::real) powi (expo x + 1) \<le> 2 powi k" by (intro power_int_increasing) simp_all
  moreover have "x < 2 powi (expo x + 1)" using assms(1) by (rule expo_bounds)
  ultimately show False using assms(2) by simp
qed

lemma rnd_0: "rnd p emin 0 = 0"
  by (simp add: rnd_def)

lemma rnd_nonneg:
  assumes "0 \<le> x"
  shows "0 \<le> rnd p emin x"
proof (cases "x = 0")
  case True
  then show ?thesis by (simp add: rnd_def)
next
  case False
  have "0 \<le> x / 2 powi ulp_exp p emin x" using assms by simp
  then have "0 \<le> rne (x / 2 powi ulp_exp p emin x)"
    using rne_ge_of_int [of 0] by simp
  then show ?thesis using False by (simp add: rnd_def)
qed

text \<open>The ends of a binade on its grid.\<close>

lemma pow_grid: "1 \<le> p \<Longrightarrow> (2::real) powi (E + 1) / 2 powi (E - (int p - 1)) = of_int (2 ^ p)"
  by (simp add: power_int_diff [symmetric] flip: power_int_of_nat)

lemma pow_grid': "1 \<le> p \<Longrightarrow> (2::real) powi E / 2 powi (E - (int p - 1)) = of_int (2 ^ (p - 1))"
  by (simp add: power_int_diff [symmetric] of_nat_diff flip: power_int_of_nat)

lemma mantissa_bounds:
  assumes "0 < x" "1 \<le> p"
  shows "0 \<le> rne (x / 2 powi ulp_exp p emin x)"
    and "rne (x / 2 powi ulp_exp p emin x) \<le> 2 ^ p"
    and "emin \<le> expo x \<Longrightarrow> 2 ^ (p - 1) \<le> rne (x / 2 powi ulp_exp p emin x)"
proof -
  define E where "E = max (expo x) emin"
  define u :: real where "u = 2 powi (E - (int p - 1))"
  have u: "0 < u" by (simp add: u_def)
  have ue: "2 powi ulp_exp p emin x = u" by (simp add: ulp_exp_def u_def E_def)
  have "0 \<le> x / u" using assms(1) u by simp
  then show "0 \<le> rne (x / 2 powi ulp_exp p emin x)"
    unfolding ue using rne_ge_of_int [of 0 "x / u"] by simp
  have "x < 2 powi (expo x + 1)" using assms(1) by (rule expo_bounds)
  also have "\<dots> \<le> 2 powi (E + 1)" by (intro power_int_increasing) (simp_all add: E_def)
  finally have "x / u \<le> 2 powi (E + 1) / u" using u by (simp add: divide_right_mono)
  also have "\<dots> = of_int (2 ^ p)" unfolding u_def using assms(2) by (rule pow_grid)
  finally show "rne (x / 2 powi ulp_exp p emin x) \<le> 2 ^ p"
    unfolding ue by (rule rne_le_of_int)
  show "2 ^ (p - 1) \<le> rne (x / 2 powi ulp_exp p emin x)" if "emin \<le> expo x"
  proof -
    from that have E: "E = expo x" by (simp add: E_def)
    have "2 powi E \<le> x" unfolding E using assms(1) by (rule expo_bounds)
    then have "2 powi E / u \<le> x / u" using u by (simp add: divide_right_mono)
    moreover have "2 powi E / u = of_int (2 ^ (p - 1))"
      unfolding u_def using assms(2) by (rule pow_grid')
    ultimately show ?thesis unfolding ue by (intro rne_ge_of_int) simp
  qed
qed

lemma rnd_le_pow:
  assumes "0 < x" "1 \<le> p"
  shows "rnd p emin x \<le> 2 powi (max (expo x) emin + 1)"
proof -
  define E where "E = max (expo x) emin"
  define u :: real where "u = 2 powi (E - (int p - 1))"
  have u: "0 < u" by (simp add: u_def)
  have ue: "2 powi ulp_exp p emin x = u" by (simp add: ulp_exp_def u_def E_def)
  have "of_int (rne (x / u)) \<le> (of_int (2 ^ p) :: real)"
    using mantissa_bounds(2) [OF assms, of emin] unfolding ue by (simp only: of_int_le_iff)
  then have "of_int (rne (x / u)) * u \<le> of_int (2 ^ p) * u"
    using u by (intro mult_right_mono) simp_all
  also have "of_int (2 ^ p) * u = 2 powi (E + 1)"
    using pow_grid [OF assms(2), of E] u by (simp add: u_def field_simps)
  finally show ?thesis
    using assms(1) by (simp add: rnd_def ue E_def)
qed

lemma rnd_ge_pow:
  assumes "0 < x" "1 \<le> p" "emin \<le> expo x"
  shows "2 powi expo x \<le> rnd p emin x"
proof -
  define E where "E = max (expo x) emin"
  define u :: real where "u = 2 powi (E - (int p - 1))"
  have u: "0 < u" by (simp add: u_def)
  have ue: "2 powi ulp_exp p emin x = u" by (simp add: ulp_exp_def u_def E_def)
  have E: "E = expo x" using assms(3) by (simp add: E_def)
  have "(of_int (2 ^ (p - 1)) :: real) \<le> of_int (rne (x / u))"
    using mantissa_bounds(3) [OF assms] unfolding ue by (simp only: of_int_le_iff)
  then have *: "of_int (2 ^ (p - 1)) * u \<le> of_int (rne (x / u)) * u"
    using u by (intro mult_right_mono) simp_all
  have "2 powi E = of_int (2 ^ (p - 1)) * u"
    using pow_grid' [OF assms(2), of E] u by (simp add: u_def field_simps)
  also note *
  finally show ?thesis
    using assms(1) by (simp add: rnd_def ue E)
qed

lemma rnd_mono_pos:
  assumes "0 < x" "x \<le> y" "1 \<le> p"
  shows "rnd p emin x \<le> rnd p emin y"
proof -
  define Ex where "Ex = max (expo x) emin"
  define Ey where "Ey = max (expo y) emin"
  have y: "0 < y" using assms by simp
  have le: "Ex \<le> Ey" using expo_mono [OF assms(1,2)] by (simp add: Ex_def Ey_def)
  show ?thesis
  proof (cases "Ex = Ey")
    case True
    have "x / 2 powi (Ex - (int p - 1)) \<le> y / 2 powi (Ex - (int p - 1))"
      using assms(2) by (simp add: divide_right_mono)
    then have "rne (x / 2 powi (Ex - (int p - 1))) \<le> rne (y / 2 powi (Ex - (int p - 1)))"
      by (rule rne_mono)
    then have "of_int (rne (x / 2 powi (Ex - (int p - 1)))) * 2 powi (Ex - (int p - 1))
        \<le> of_int (rne (y / 2 powi (Ex - (int p - 1)))) * (2::real) powi (Ex - (int p - 1))"
      by (intro mult_right_mono) simp_all
    then show ?thesis
      using assms(1) y True by (simp add: rnd_def ulp_exp_def Ex_def Ey_def)
  next
    case False
    with le have lt: "Ex < Ey" by simp
    then have n: "emin \<le> expo y" "Ey = expo y"
      by (simp_all add: Ex_def Ey_def max_def split: if_splits)
    have "rnd p emin x \<le> 2 powi (Ex + 1)"
      unfolding Ex_def using assms(1,3) by (rule rnd_le_pow)
    also have "\<dots> \<le> 2 powi Ey" using lt by (intro power_int_increasing) simp_all
    also have "\<dots> \<le> rnd p emin y"
      unfolding n(2) using y assms(3) n(1) by (rule rnd_ge_pow)
    finally show ?thesis .
  qed
qed

lemma rnd_mono:
  assumes "0 \<le> x" "x \<le> y" "1 \<le> p"
  shows "rnd p emin x \<le> rnd p emin y"
proof (cases "x = 0")
  case True
  with assms rnd_nonneg [of y p emin] show ?thesis by (simp add: rnd_0)
next
  case False
  with assms(1) have "0 < x" by simp
  then show ?thesis using assms(2,3) by (rule rnd_mono_pos)
qed

lemma rnd_pow:
  assumes "1 \<le> p" "emin \<le> E"
  shows "rnd p emin (2 powi E) = 2 powi E"
proof -
  have e: "expo (2 powi E) = E"
    by (rule expo_eq) (simp_all add: power_int_strict_increasing)
  have "(2::real) powi E / 2 powi (E - (int p - 1)) = of_int (2 ^ (p - 1))"
    using assms(1) by (rule pow_grid')
  then have "of_int (rne (2 powi E / 2 powi (E - (int p - 1)))) * (2::real) powi (E - (int p - 1))
      = 2 powi E / 2 powi (E - (int p - 1)) * 2 powi (E - (int p - 1))"
    by (simp only: rne_of_int)
  also have "\<dots> = 2 powi E" by simp
  finally show ?thesis
    using assms(2) by (simp add: rnd_def ulp_exp_def e max_def)
qed

lemma rnd_fix:
  assumes "1 \<le> p" "0 < n" "n < 2 ^ p" "emin \<le> E" "E = emin \<or> 2 ^ (p - 1) \<le> n"
  shows "rnd p emin (of_int n * 2 powi (E - (int p - 1))) = of_int n * 2 powi (E - (int p - 1))"
proof -
  define u :: real where "u = 2 powi (E - (int p - 1))"
  define r where "r = of_int n * u"
  have u: "0 < u" by (simp add: u_def)
  have r: "0 < r" using assms(2) u by (simp add: r_def)
  have "of_int n < (of_int (2 ^ p) :: real)" using assms(3) by (simp only: of_int_less_iff)
  then have "r < of_int (2 ^ p) * u" unfolding r_def using u by (simp add: mult_strict_right_mono)
  also have "of_int (2 ^ p) * u = 2 powi (E + 1)"
    using pow_grid [OF assms(1), of E] u by (simp add: u_def field_simps)
  finally have "expo r < E + 1" using r by (intro expo_less)
  then have up: "expo r \<le> E" by simp
  have m: "max (expo r) emin = E"
  proof (cases "2 ^ (p - 1) \<le> n")
    case True
    then have "(of_int (2 ^ (p - 1)) :: real) \<le> of_int n" by (simp only: of_int_le_iff)
    then have "of_int (2 ^ (p - 1)) * u \<le> r" unfolding r_def using u by (simp add: mult_right_mono)
    moreover have "of_int (2 ^ (p - 1)) * u = 2 powi E"
      using pow_grid' [OF assms(1), of E] u by (simp add: u_def field_simps)
    ultimately have "2 powi E \<le> r" by simp
    with r have "E \<le> expo r" by (intro expo_ge)
    with up assms(4) show ?thesis by simp
  next
    case False
    with assms(5) have "E = emin" by simp
    with up show ?thesis by simp
  qed
  have "r / u = of_int n" using u by (simp add: r_def)
  then have "of_int (rne (r / u)) * u = r" by (simp add: rne_of_int r_def)
  then show ?thesis
    using r by (simp add: rnd_def ulp_exp_def m r_def [symmetric] u_def [symmetric])
qed

lemma rnd_idem_pos:
  assumes "0 < x" "1 \<le> p"
  shows "rnd p emin (rnd p emin x) = rnd p emin x"
proof -
  define E where "E = max (expo x) emin"
  define n where "n = rne (x / 2 powi ulp_exp p emin x)"
  have r: "rnd p emin x = of_int n * 2 powi (E - (int p - 1))"
    using assms(1) by (simp add: rnd_def n_def ulp_exp_def E_def)
  note b = mantissa_bounds [OF assms, of emin, folded n_def]
  consider "n = 0" | "n = 2 ^ p" | "0 < n" "n < 2 ^ p" using b(1,2) by linarith
  then show ?thesis
  proof cases
    case 1
    then show ?thesis by (simp add: r rnd_0)
  next
    case 2
    have "of_int n * 2 powi (E - (int p - 1)) = (2::real) powi (E + 1)"
      using pow_grid [OF assms(2), of E] by (simp add: 2 field_simps)
    moreover have "rnd p emin (2 powi (E + 1)) = 2 powi (E + 1)"
      using assms(2) by (rule rnd_pow) (simp add: E_def)
    ultimately show ?thesis by (simp add: r)
  next
    case 3
    have "E = emin \<or> 2 ^ (p - 1) \<le> n"
    proof (cases "emin \<le> expo x")
      case True
      then show ?thesis using b(3) by simp
    next
      case False
      then show ?thesis by (simp add: E_def)
    qed
    with assms(2) 3 show ?thesis
      unfolding r by (intro rnd_fix) (simp_all add: E_def)
  qed
qed

lemma rnd_idem:
  assumes "0 \<le> x" "1 \<le> p"
  shows "rnd p emin (rnd p emin x) = rnd p emin x"
  using assms rnd_idem_pos [of x p emin] by (cases "x = 0") (simp_all add: rnd_0)

lemma rnd_1:
  assumes "1 \<le> p" "emin \<le> 0"
  shows "rnd p emin 1 = 1"
  using rnd_pow [OF assms] by simp

text \<open>Evaluation at a number whose binade is known.\<close>

lemma rnd_eval:
  assumes "0 < x" "2 powi e \<le> x" "x < 2 powi (e + 1)" "emin \<le> e"
  shows "rnd p emin x = of_int (rne (x / 2 powi (e - (int p - 1)))) * 2 powi (e - (int p - 1))"
proof -
  have "expo x = e" using assms(1-3) by (rule expo_eq)
  then show ?thesis using assms(1,4) by (simp add: rnd_def ulp_exp_def max_def)
qed

section \<open>The linear schedule\<close>

lemma length_linspace: "length (linspace lo hi n) = n"
  by (simp add: linspace_def)

lemma linspace_nth:
  "k < n \<Longrightarrow>
   linspace lo hi n ! k = (if n = 1 then lo else lo + real k * ((hi - lo) / real (n - 1)))"
  by (auto simp: linspace_def)

lemma linspace_last: "2 \<le> n \<Longrightarrow> linspace lo hi n ! (n - 1) = hi"
  by (simp add: linspace_nth)

text \<open>Every point of the interpolation is a convex combination of the two bounds.\<close>

lemma linspace_le:
  assumes "lo \<le> c" "hi \<le> c" "x \<in> set (linspace lo hi n)"
  shows "x \<le> c"
proof (cases "n = 1")
  case True
  with assms show ?thesis by (simp add: linspace_def)
next
  case False
  with assms(3) obtain i where i: "i < n" and x: "x = lo + real i * ((hi - lo) / real (n - 1))"
    by (auto simp: linspace_def)
  from i False have n: "0 < real (n - 1)" and le: "real i \<le> real (n - 1)" by auto
  define l where "l = real i / real (n - 1)"
  have l: "0 \<le> l" "l \<le> 1" using n le by (simp_all add: l_def)
  have "x = (1 - l) * lo + l * hi"
    by (simp add: x l_def algebra_simps diff_divide_distrib)
  also have "\<dots> \<le> (1 - l) * c + l * c"
    using l assms(1,2) by (intro add_mono mult_left_mono) simp_all
  also have "\<dots> = c" by (simp add: algebra_simps)
  finally show ?thesis .
qed

lemma linspace_ge:
  assumes "c \<le> lo" "c \<le> hi" "x \<in> set (linspace lo hi n)"
  shows "c \<le> x"
proof (cases "n = 1")
  case True
  with assms show ?thesis by (simp add: linspace_def)
next
  case False
  with assms(3) obtain i where i: "i < n" and x: "x = lo + real i * ((hi - lo) / real (n - 1))"
    by (auto simp: linspace_def)
  from i False have n: "0 < real (n - 1)" and le: "real i \<le> real (n - 1)" by auto
  define l where "l = real i / real (n - 1)"
  have l: "0 \<le> l" "l \<le> 1" using n le by (simp_all add: l_def)
  have "c = (1 - l) * c + l * c" by (simp add: algebra_simps)
  also have "\<dots> \<le> (1 - l) * lo + l * hi"
    using l assms(1,2) by (intro add_mono mult_left_mono) simp_all
  also have "\<dots> = x"
    by (simp add: x l_def algebra_simps diff_divide_distrib)
  finally show ?thesis .
qed

subsection \<open>The repository's test and the generator\<close>

lemma allclose_with_refl:
  "(\<And>x. x \<in> set xs \<Longrightarrow> close x x) \<Longrightarrow> allclose_with close xs xs = Some True"
  by (auto simp: allclose_with_def broadcast_def list_all_iff set_zip)

lemma isclose_refl: "0 \<le> rtol \<Longrightarrow> 0 \<le> atol \<Longrightarrow> isclose rtol atol x x"
  by (simp add: isclose_def)

lemma linear_schedule_case_generate:
  assumes "0 \<le> T" "0 \<le> b1" "b1 \<le> 1" "0 \<le> bT" "bT \<le> 1"
  shows "linear_schedule_case generate_linear_schedule b1 bT T"
proof -
  have le: "x \<le> 1" if "x \<in> set (0 # linspace b1 bT (nat T))" for x
    using that linspace_le [OF assms(3,5)] by auto
  have 1: "allclose_with (isclose rtol_default atol_default)
             (0 # linspace b1 bT (nat T)) (0 # linspace b1 bT (nat T)) = Some True"
    by (rule allclose_with_refl) (simp add: isclose_refl rtol_default_def atol_default_def)
  have 2: "allclose_with (t_isclose rtol_default atol_default)
             (map (\<lambda>b. t_sqrt (Some (1 - b))) (0 # linspace b1 bT (nat T)))
             (map (\<lambda>b. t_sqrt (Some (1 - b))) (0 # linspace b1 bT (nat T))) = Some True"
  proof (rule allclose_with_refl)
    fix v assume "v \<in> set (map (\<lambda>b. t_sqrt (Some (1 - b))) (0 # linspace b1 bT (nat T)))"
    then obtain b where b: "b \<in> set (0 # linspace b1 bT (nat T))"
      and v: "v = t_sqrt (Some (1 - b))"
      unfolding set_map by blast
    from le [OF b] have "v = Some (sqrt (1 - b))" by (simp add: v t_sqrt_def)
    then show "t_isclose rtol_default atol_default v v"
      by (simp add: t_isclose_def isclose_refl rtol_default_def atol_default_def)
  qed
  show ?thesis
    using assms 1 2
    by (simp add: linear_schedule_case_def gen_beta_schedule_def generate_linear_schedule_def
        Let_def)
qed

text \<open>The model of the generator passes the repository's test of it.\<close>

lemma generate_linear_schedule_passes_test: "test_linear_schedule generate_linear_schedule"
  by (simp add: test_linear_schedule_def Let_def linear_schedule_case_generate)

text \<open>
  The test reaches the generator with \<open>T = 0\<close>, \<open>beta1 = 1\<close>, \<open>betaT = 0.01\<close>, and
  passes only if the generator returns a schedule there.
\<close>

lemma test_linear_schedule_needs_schedule:
  assumes "test_linear_schedule gen"
  shows "\<exists>p. gen 0 1 (1 / 100) = Inr p"
proof -
  from assms have "linear_schedule_case gen 1 (1 / 100) 0"
    by (simp add: test_linear_schedule_def Let_def)
  then show ?thesis
    by (auto simp: linear_schedule_case_def Let_def split: sum.splits)
qed

text \<open>
  C9. For \<open>T = 1\<close> and any bounds, the schedule is \<open>beta = [0, beta_low]\<close>: the only
  timestep has variance \<open>beta_low\<close>, and \<open>beta_high\<close> has no effect on the result.
\<close>

theorem gen_beta_schedule_single_step:
  "gen_beta_schedule beta_low beta_high 1 = Inr [0, beta_low]
   \<and> gen_beta_schedule beta_low beta_high 1 = gen_beta_schedule beta_low beta_high' 1"
  by (simp add: gen_beta_schedule_def linspace_def)

text \<open>
  C4. For every non-negative \<open>T\<close> and all bounds that the generator accepts (each in
  \<open>[0, 1]\<close>, in any order), \<open>generate_linear_schedule\<close> returns a schedule, without
  error, whose sequences \<open>beta\<close>, \<open>scale\<close> and \<open>var\<close> have length \<open>T + 1\<close>, with
  \<open>beta[0] = 0\<close>, \<open>beta[1..T]\<close> the linear interpolation between \<open>beta_low\<close> and
  \<open>beta_high\<close> (the sequence of the test's \<open>gen_beta_schedule\<close>),
  \<open>scale[t] = sqrt(1 - beta[t])\<close> and \<open>var[t] = beta[t]\<close>; for \<open>T = 0\<close> the schedule
  is the sentinel alone.
\<close>

theorem generate_linear_schedule_contract:
  assumes "0 \<le> T" "0 \<le> beta_low" "beta_low \<le> 1" "0 \<le> beta_high" "beta_high \<le> 1"
  shows "\<exists>p. generate_linear_schedule T beta_low beta_high = Inr p
    \<and> length (beta p) = nat T + 1 \<and> length (scale p) = nat T + 1
    \<and> length (var p) = nat T + 1
    \<and> beta p ! 0 = 0
    \<and> (\<forall>k. 1 \<le> k \<and> k \<le> nat T \<longrightarrow>
          beta p ! k = (if T = 1 then beta_low
                        else beta_low + real (k - 1) * ((beta_high - beta_low) / real (nat T - 1))))
    \<and> (2 \<le> T \<longrightarrow> beta p ! 1 = beta_low \<and> beta p ! nat T = beta_high)
    \<and> (\<forall>t. t \<le> nat T \<longrightarrow>
          0 \<le> beta p ! t \<and> beta p ! t \<le> 1
          \<and> scale p ! t = Some (sqrt (1 - beta p ! t)) \<and> var p ! t = beta p ! t)
    \<and> (T = 0 \<longrightarrow> beta p = [0] \<and> scale p = [Some 1] \<and> var p = [0])
    \<and> gen_beta_schedule beta_low beta_high T = Inr (beta p)"
proof -
  define b where "b = 0 # linspace beta_low beta_high (nat T)"
  define p where "p = \<lparr>beta = b, scale = map (\<lambda>x. t_sqrt (Some (1 - x))) b, var = b\<rparr>"
  have gen: "generate_linear_schedule T beta_low beta_high = Inr p"
    using assms by (simp add: generate_linear_schedule_def p_def b_def Let_def)
  have len: "length b = nat T + 1"
    by (simp add: b_def length_linspace)
  have sel: "beta p = b" "scale p = map (\<lambda>x. t_sqrt (Some (1 - x))) b" "var p = b"
    by (simp_all add: p_def)
  have rng: "0 \<le> x \<and> x \<le> 1" if "x \<in> set b" for x
    using that linspace_le [OF assms(3,5), of x "nat T"] linspace_ge [OF assms(2,4), of x "nat T"]
    by (auto simp: b_def)
  have c1: "length (beta p) = nat T + 1 \<and> length (scale p) = nat T + 1
      \<and> length (var p) = nat T + 1"
    by (simp add: sel len)
  have c2: "beta p ! 0 = 0" by (simp add: sel b_def)
  have c3: "\<forall>k. 1 \<le> k \<and> k \<le> nat T \<longrightarrow>
      beta p ! k = (if T = 1 then beta_low
        else beta_low + real (k - 1) * ((beta_high - beta_low) / real (nat T - 1)))"
  proof (intro allI impI)
    fix k assume "1 \<le> k \<and> k \<le> nat T"
    then obtain j where k: "k = Suc j" and j: "j < nat T"
      by (cases k) auto
    have "nat T = 1 \<longleftrightarrow> T = 1" using assms(1) by auto
    then show "beta p ! k = (if T = 1 then beta_low
        else beta_low + real (k - 1) * ((beta_high - beta_low) / real (nat T - 1)))"
      using j by (simp add: sel k b_def linspace_nth)
  qed
  have c4: "2 \<le> T \<longrightarrow> beta p ! 1 = beta_low \<and> beta p ! nat T = beta_high"
  proof
    assume "2 \<le> T"
    then have n: "2 \<le> nat T" by simp
    then obtain m where m: "nat T = Suc m" by (cases "nat T") auto
    have "linspace beta_low beta_high (nat T) ! (nat T - 1) = beta_high"
      using n by (rule linspace_last)
    then show "beta p ! 1 = beta_low \<and> beta p ! nat T = beta_high"
      using n by (simp add: sel b_def linspace_nth m)
  qed
  have c5: "\<forall>t. t \<le> nat T \<longrightarrow>
      0 \<le> beta p ! t \<and> beta p ! t \<le> 1
      \<and> scale p ! t = Some (sqrt (1 - beta p ! t)) \<and> var p ! t = beta p ! t"
  proof (intro allI impI)
    fix t assume "t \<le> nat T"
    then have t: "t < length b" by (simp add: len)
    then have r: "0 \<le> b ! t \<and> b ! t \<le> 1" by (intro rng nth_mem)
    then show "0 \<le> beta p ! t \<and> beta p ! t \<le> 1
      \<and> scale p ! t = Some (sqrt (1 - beta p ! t)) \<and> var p ! t = beta p ! t"
      using t by (simp add: sel t_sqrt_def)
  qed
  have c7: "T = 0 \<longrightarrow> beta p = [0] \<and> scale p = [Some 1] \<and> var p = [0]"
    by (simp add: sel b_def linspace_def t_sqrt_def)
  have c8: "gen_beta_schedule beta_low beta_high T = Inr (beta p)"
    using assms(1) by (simp add: gen_beta_schedule_def sel b_def)
  from gen c1 c2 c3 c4 c5 c7 c8 show ?thesis by blast
qed

theorem generate_linear_schedule_contract_witness:
  "(0::int) \<le> 2
   \<and> (\<exists>p. generate_linear_schedule 2 (1 / 10) (1 / 5) = Inr p
        \<and> length (beta p) = 3 \<and> length (scale p) = 3 \<and> length (var p) = 3
        \<and> beta p ! 0 = 0 \<and> beta p ! 1 = 1 / 10 \<and> beta p ! 2 = 1 / 5
        \<and> var p ! 2 = 1 / 5 \<and> scale p ! 2 = Some (sqrt (4 / 5)))"
proof -
  have h: "(0::int) \<le> 2" "(0::real) \<le> 1 / 10" "(1::real) / 10 \<le> 1" "(0::real) \<le> 1 / 5"
    "(1::real) / 5 \<le> 1" by simp_all
  from generate_linear_schedule_contract [OF h]
  obtain p where p: "generate_linear_schedule 2 (1 / 10) (1 / 5) = Inr p"
    "length (beta p) = nat 2 + 1" "length (scale p) = nat 2 + 1" "length (var p) = nat 2 + 1"
    "beta p ! 0 = 0"
    "(2::int) \<le> 2 \<longrightarrow> beta p ! 1 = 1 / 10 \<and> beta p ! nat 2 = 1 / 5"
    "\<forall>t. t \<le> nat 2 \<longrightarrow>
       0 \<le> beta p ! t \<and> beta p ! t \<le> 1
       \<and> scale p ! t = Some (sqrt (1 - beta p ! t)) \<and> var p ! t = beta p ! t"
    by blast
  from p(6) have b: "beta p ! 1 = 1 / 10" "beta p ! 2 = 1 / 5" by simp_all
  from p(7) have "scale p ! 2 = Some (sqrt (1 - beta p ! 2)) \<and> var p ! 2 = beta p ! 2"
    by simp
  with b have "var p ! 2 = 1 / 5" "scale p ! 2 = Some (sqrt (4 / 5))"
    by simp_all
  with p(1-5) b h(1) show ?thesis by auto
qed

text \<open>
  C6, as the specification states it, fails at \<open>T = 0\<close>, \<open>beta_low = 1\<close>,
  \<open>beta_high = 0.01\<close>, where \<open>beta_low > beta_high\<close> and \<open>beta_low\<close> is outside
  \<open>[0, 1)\<close>: no generator that passes the repository's \<open>test_linear_schedule\<close> signals
  a \<open>ConfigurationError\<close> there, and the model of the generator returns the schedule of
  the sentinel.
\<close>

theorem bounds_error_contradicts_test:
  "\<not> (\<exists>gen. test_linear_schedule gen \<and> gen 0 1 (1 / 100) = Inl ConfigurationError)
   \<and> generate_linear_schedule 0 1 (1 / 100) = Inr \<lparr>beta = [0], scale = [Some 1], var = [0]\<rparr>
   \<and> generate_linear_schedule 0 1 (1 / 100) \<noteq> Inl ConfigurationError"
proof -
  have "generate_linear_schedule 0 1 (1 / 100) = Inr \<lparr>beta = [0], scale = [Some 1], var = [0]\<rparr>"
    by (simp add: generate_linear_schedule_def linspace_def t_sqrt_def Let_def)
  moreover have "\<not> (\<exists>gen. test_linear_schedule gen \<and> gen 0 1 (1 / 100) = Inl ConfigurationError)"
    using test_linear_schedule_needs_schedule by fastforce
  ultimately show ?thesis by simp
qed

text \<open>
  C6, amended. \<open>generate_linear_schedule\<close> signals a \<open>ConfigurationError\<close>, and returns
  no schedule, when a bound is below \<open>0\<close> or above \<open>1\<close> or when \<open>T < 0\<close>. A bound
  equal to \<open>1\<close> and \<open>beta_low > beta_high\<close> are not errors: for \<open>T \<ge> 0\<close> and bounds
  in \<open>[0, 1]\<close> it returns the schedule interpolated between the bounds as they are
  given, neither clamped nor reordered.
\<close>

theorem generate_linear_schedule_failure:
  "(T < 0 \<or> beta_low < 0 \<or> 1 < beta_low \<or> beta_high < 0 \<or> 1 < beta_high \<longrightarrow>
      generate_linear_schedule T beta_low beta_high = Inl ConfigurationError)
   \<and> (0 \<le> T \<and> 0 \<le> beta_low \<and> beta_low \<le> 1 \<and> 0 \<le> beta_high \<and> beta_high \<le> 1 \<longrightarrow>
        generate_linear_schedule T beta_low beta_high =
          Inr \<lparr>beta = 0 # linspace beta_low beta_high (nat T),
               scale = map (\<lambda>x. t_sqrt (Some (1 - x))) (0 # linspace beta_low beta_high (nat T)),
               var = 0 # linspace beta_low beta_high (nat T)\<rparr>)"
  by (auto simp: generate_linear_schedule_def Let_def)

theorem generate_linear_schedule_failure_witness:
  "generate_linear_schedule (- 1) 0 (1 / 2) = Inl ConfigurationError
   \<and> generate_linear_schedule 10 (- 1 / 2) (1 / 2) = Inl ConfigurationError
   \<and> generate_linear_schedule 10 (1 / 2) 2 = Inl ConfigurationError
   \<and> generate_linear_schedule 1 1 (1 / 100) =
       Inr \<lparr>beta = [0, 1], scale = [Some 1, Some 0], var = [0, 1]\<rparr>"
  using generate_linear_schedule_failure [of "- 1" 0 "1 / 2"]
    generate_linear_schedule_failure [of 10 "- 1 / 2" "1 / 2"]
    generate_linear_schedule_failure [of 10 "1 / 2" 2]
    generate_linear_schedule_failure [of 1 1 "1 / 100"]
  by (simp add: linspace_def t_sqrt_def)

subsection \<open>The schedule of the end-to-end example\<close>

lemma gen_beta_schedule_example:
  "gen_beta_schedule (1 / 10000) (1 / 10) 10 =
     Inr [0, 1 / 10000, 7 / 625, 223 / 10000, 167 / 5000, 89 / 2000, 139 / 2500,
          667 / 10000, 389 / 5000, 889 / 10000, 1 / 10]"
  by (simp add: gen_beta_schedule_def linspace_def upt_rec [of _ "numeral _"] upt_rec [of 0])

text \<open>
  C7, as the specification states it, fails at \<open>beta[5]\<close>: for \<open>T = 10\<close>,
  \<open>beta_low = 1e-4\<close>, \<open>beta_high = 0.1\<close> the schedule has \<open>beta[5] = 0.0445\<close>,
  which is further than \<open>0.01\<close> from \<open>0.055\<close>.
\<close>

theorem example_beta5_not_055:
  "projr (gen_beta_schedule (1 / 10000) (1 / 10) 10) ! 5 = 445 / 10000
   \<and> \<not> \<bar>projr (gen_beta_schedule (1 / 10000) (1 / 10) 10) ! 5 - 55 / 1000\<bar> \<le> 1 / 100"
  by (simp add: gen_beta_schedule_example)

text \<open>
  C7, amended. For \<open>T = 10\<close>, \<open>beta_low = 1e-4\<close>, \<open>beta_high = 0.1\<close> the schedule
  has eleven entries, \<open>beta[0] = 0\<close>, \<open>beta[10] = 0.1\<close> and \<open>beta[5] = 0.0445\<close>
  (it is \<open>beta[6] = 0.0556\<close> that is within \<open>1e-3\<close> of \<open>0.055\<close>), and
  \<open>alpha_bar[10]\<close> is the direct product of \<open>1 - beta[t]\<close> over \<open>t = 1..10\<close>, so
  within \<open>1e-6\<close> of it.
\<close>

theorem example_schedule:
  "\<exists>bs. gen_beta_schedule (1 / 10000) (1 / 10) 10 = Inr bs
     \<and> length bs = 11 \<and> bs ! 0 = 0 \<and> bs ! 10 = 1 / 10
     \<and> bs ! 5 = 445 / 10000
     \<and> bs ! 6 = 556 / 10000 \<and> \<bar>bs ! 6 - 55 / 1000\<bar> \<le> 1 / 1000
     \<and> calc_alpha_bar (alpha_from_beta bs) ! 10 = prod_list (map (\<lambda>t. 1 - bs ! t) [1..<11])
     \<and> \<bar>calc_alpha_bar (alpha_from_beta bs) ! 10
          - prod_list (map (\<lambda>t. 1 - bs ! t) [1..<11])\<bar> \<le> 1 / 1000000"
  by (simp add: gen_beta_schedule_example calc_alpha_bar_def alpha_from_beta_def cumprod_def
      upt_rec [of _ "numeral _"] upt_rec [of 0])

section \<open>The cumulative product\<close>

lemma valid_beta_nth:
  assumes "valid_beta bs"
  shows "bs \<noteq> [] \<and> bs ! 0 = 0 \<and> (\<forall>t. 1 \<le> t \<and> t < length bs \<longrightarrow> 0 < bs ! t \<and> bs ! t < 1)"
proof (cases bs)
  case Nil
  with assms show ?thesis by (simp add: valid_beta_def)
next
  case (Cons b0 rest)
  with assms have b0: "b0 = 0" and rest: "\<forall>i < length rest. 0 < rest ! i \<and> rest ! i < 1"
    by (simp_all add: valid_beta_def list_all_length)
  have "0 < bs ! t \<and> bs ! t < 1" if "1 \<le> t" "t < length bs" for t
  proof -
    from that obtain j where "t = Suc j" by (cases t) auto
    with that rest show ?thesis by (simp add: Cons)
  qed
  with b0 show ?thesis by (simp add: Cons)
qed

lemma valid_beta_nonempty: "valid_beta bs \<Longrightarrow> bs \<noteq> []"
  by (simp add: valid_beta_nth)

lemma valid_beta_0: "valid_beta bs \<Longrightarrow> bs ! 0 = 0"
  by (simp add: valid_beta_nth)

lemma valid_beta_range: "valid_beta bs \<Longrightarrow> 1 \<le> t \<Longrightarrow> t < length bs \<Longrightarrow> 0 < bs ! t \<and> bs ! t < 1"
  using valid_beta_nth [of bs] by blast

lemma length_cumprod: "length (cumprod xs) = length xs"
  by (simp add: cumprod_def)

lemma cumprod_nth: "i < length xs \<Longrightarrow> cumprod xs ! i = prod_list (take (Suc i) xs)"
  by (simp add: cumprod_def)

lemma cumprod_0: "xs \<noteq> [] \<Longrightarrow> cumprod xs ! 0 = xs ! 0"
  by (cases xs) (simp_all add: cumprod_nth)

lemma cumprod_Suc: "Suc i < length xs \<Longrightarrow> cumprod xs ! Suc i = cumprod xs ! i * xs ! Suc i"
  by (simp add: cumprod_nth take_Suc_conv_app_nth)

lemma running_prod_map:
  "running_prod acc xs = map (\<lambda>i. acc * prod_list (take (Suc i) xs)) [0..<length xs]"
proof (induction xs arbitrary: acc)
  case Nil
  then show ?case by simp
next
  case (Cons x xs)
  have "[0..<length (x # xs)] = 0 # map Suc [0..<length xs]"
    by (simp add: upt_conv_Cons map_Suc_upt del: upt_Suc)
  then show ?case
    by (simp add: Cons.IH mult.assoc comp_def del: upt_Suc)
qed

lemma running_prod_cumprod: "running_prod 1 xs = cumprod xs"
  by (simp add: running_prod_map cumprod_def)

lemma take_map_nth: "n \<le> length xs \<Longrightarrow> take n (map f xs) = map (\<lambda>i. f (xs ! i)) [0..<n]"
  by (rule nth_equalityI) simp_all

lemma length_alpha_bar: "length (calc_alpha_bar (alpha_from_beta bs)) = length bs"
  by (simp add: calc_alpha_bar_def alpha_from_beta_def length_cumprod)

lemma alpha_bar_prod:
  "t < length bs \<Longrightarrow>
   calc_alpha_bar (alpha_from_beta bs) ! t = prod_list (map (\<lambda>i. 1 - bs ! i) [0..<Suc t])"
  by (simp add: calc_alpha_bar_def alpha_from_beta_def cumprod_nth take_map_nth del: upt_Suc)

lemma alpha_bar_0: "valid_beta bs \<Longrightarrow> calc_alpha_bar (alpha_from_beta bs) ! 0 = 1"
  using valid_beta_nonempty [of bs] valid_beta_0 [of bs]
  by (simp add: calc_alpha_bar_def alpha_from_beta_def cumprod_0 nth_map)

lemma alpha_bar_Suc:
  "Suc t < length bs \<Longrightarrow>
   calc_alpha_bar (alpha_from_beta bs) ! Suc t =
     calc_alpha_bar (alpha_from_beta bs) ! t * (1 - bs ! Suc t)"
  by (simp add: calc_alpha_bar_def alpha_from_beta_def cumprod_Suc)

lemma alpha_bar_pos:
  assumes "valid_beta bs" "t < length bs"
  shows "0 < calc_alpha_bar (alpha_from_beta bs) ! t"
  using assms(2)
proof (induction t)
  case 0
  then show ?case by (simp add: alpha_bar_0 assms(1))
next
  case (Suc t)
  then have "0 < calc_alpha_bar (alpha_from_beta bs) ! t" by simp
  moreover have "0 < 1 - bs ! Suc t"
    using valid_beta_range [OF assms(1), of "Suc t"] Suc.prems by simp
  ultimately show ?case
    using Suc.prems by (simp add: alpha_bar_Suc)
qed

lemma alpha_bar_step:
  assumes "valid_beta bs" "Suc t < length bs"
  shows "calc_alpha_bar (alpha_from_beta bs) ! Suc t < calc_alpha_bar (alpha_from_beta bs) ! t"
proof -
  have p: "0 < calc_alpha_bar (alpha_from_beta bs) ! t"
    using assms by (simp add: alpha_bar_pos)
  have "1 - bs ! Suc t < 1"
    using valid_beta_range [OF assms(1), of "Suc t"] assms(2) by simp
  with p have "calc_alpha_bar (alpha_from_beta bs) ! t * (1 - bs ! Suc t)
      < calc_alpha_bar (alpha_from_beta bs) ! t * 1"
    by (intro mult_strict_left_mono) simp_all
  then show ?thesis
    using assms(2) by (simp add: alpha_bar_Suc)
qed

lemma alpha_bar_strict:
  assumes "valid_beta bs" "s < t" "t < length bs"
  shows "calc_alpha_bar (alpha_from_beta bs) ! t < calc_alpha_bar (alpha_from_beta bs) ! s"
  using assms(2,3)
proof (induction t)
  case 0
  then show ?case by simp
next
  case (Suc t)
  have step: "calc_alpha_bar (alpha_from_beta bs) ! Suc t < calc_alpha_bar (alpha_from_beta bs) ! t"
    using assms(1) Suc.prems(2) by (rule alpha_bar_step)
  show ?case
  proof (cases "s = t")
    case True
    with step show ?thesis by simp
  next
    case False
    with Suc.prems have "s < t" "t < length bs" by simp_all
    with Suc.IH step show ?thesis by simp
  qed
qed

lemma alpha_bar_mono:
  assumes "valid_beta bs" "s \<le> t" "t < length bs"
  shows "calc_alpha_bar (alpha_from_beta bs) ! t \<le> calc_alpha_bar (alpha_from_beta bs) ! s"
  using alpha_bar_strict [OF assms(1), of s t] assms(2,3) by (cases "s = t") simp_all

lemma alpha_bar_le_1:
  assumes "valid_beta bs" "t < length bs"
  shows "calc_alpha_bar (alpha_from_beta bs) ! t \<le> 1"
  using alpha_bar_mono [OF assms(1), of 0 t] assms by (simp add: alpha_bar_0)

lemma alpha_bar_less_1:
  assumes "valid_beta bs" "1 \<le> t" "t < length bs"
  shows "calc_alpha_bar (alpha_from_beta bs) ! t < 1"
  using alpha_bar_strict [OF assms(1), of 0 t] assms by (simp add: alpha_bar_0)


section \<open>The forward jump\<close>

lemma new_engine_alpha_bar:
  "eng_alpha_bar (new_engine sched sd dev) = calc_alpha_bar (alpha_from_beta (beta sched))"
  by (simp add: new_engine_def Let_def running_prod_cumprod calc_alpha_bar_def alpha_from_beta_def)

lemma new_engine_alpha:
  "eng_alpha (new_engine sched sd dev) = alpha_from_beta (beta sched)"
  by (simp add: new_engine_def Let_def alpha_from_beta_def)

lemma new_engine_jumps:
  "jump_scale (fwd_p_jumps (new_engine sched sd dev)) =
     calc_forward_scale (calc_alpha_bar (alpha_from_beta (beta sched)))"
  "jump_var (fwd_p_jumps (new_engine sched sd dev)) =
     calc_forward_var (calc_alpha_bar (alpha_from_beta (beta sched)))"
  by (simp_all add: new_engine_def Let_def running_prod_cumprod calc_alpha_bar_def
      alpha_from_beta_def calc_forward_scale_def calc_forward_var_def)

lemma horizon_new_engine: "horizon (new_engine sched sd dev) = int (length (beta sched)) - 1"
  by (simp add: horizon_def new_engine_def Let_def)

lemma forward_scale_nth:
  assumes "valid_beta bs" "t < length bs"
  shows "calc_forward_scale (calc_alpha_bar (alpha_from_beta bs)) ! t =
           Some (sqrt (calc_alpha_bar (alpha_from_beta bs) ! t))"
  using alpha_bar_pos [OF assms] assms(2)
  by (simp add: calc_forward_scale_def length_alpha_bar t_sqrt_def)

lemma forward_var_nth:
  assumes "t < length bs"
  shows "calc_forward_var (calc_alpha_bar (alpha_from_beta bs)) ! t =
           1 - calc_alpha_bar (alpha_from_beta bs) ! t"
  using assms by (simp add: calc_forward_var_def length_alpha_bar)

text \<open>
  C3. For every valid beta sequence and every \<open>t\<close> in \<open>[0, T]\<close>, the engine's cached
  forward-jump parameters are \<open>scale[t] = sqrt(alpha_bar[t])\<close> and
  \<open>var[t] = 1 - alpha_bar[t]\<close>, where \<open>alpha_bar[t]\<close> is the product of
  \<open>1 - beta[i]\<close> over \<open>i = 0..t\<close> and \<open>alpha_bar[0] = 1\<close>; the cached arrays are
  those of the test's direct recomputation (\<open>calc_alpha_bar\<close>, \<open>calc_forward_scale\<close>,
  \<open>calc_forward_var\<close>) from the same beta sequence.
\<close>

theorem forward_jump_params_reference:
  assumes "valid_beta (beta sched)" "0 \<le> t" "t \<le> int (length (beta sched)) - 1"
  defines "ab \<equiv> calc_alpha_bar (alpha_from_beta (beta sched))"
  shows "forward_jump_params (new_engine sched sd dev) t =
           Inr (Some (sqrt (ab ! nat t)), 1 - ab ! nat t)
    \<and> ab ! nat t = prod_list (map (\<lambda>i. 1 - beta sched ! i) [0..<Suc (nat t)])
    \<and> ab ! 0 = 1
    \<and> eng_alpha_bar (new_engine sched sd dev) = ab
    \<and> jump_scale (fwd_p_jumps (new_engine sched sd dev)) = calc_forward_scale ab
    \<and> jump_var (fwd_p_jumps (new_engine sched sd dev)) = calc_forward_var ab"
proof -
  from assms(2,3) have t: "nat t < length (beta sched)" by simp
  have 1: "forward_jump_params (new_engine sched sd dev) t =
           Inr (Some (sqrt (ab ! nat t)), 1 - ab ! nat t)"
    using assms(2,3) forward_scale_nth [OF assms(1) t] forward_var_nth [OF t]
    by (simp add: forward_jump_params_def horizon_new_engine new_engine_jumps ab_def)
  have 2: "ab ! nat t = prod_list (map (\<lambda>i. 1 - beta sched ! i) [0..<Suc (nat t)])"
    unfolding ab_def using t by (rule alpha_bar_prod)
  have 3: "ab ! 0 = 1"
    unfolding ab_def using assms(1) by (rule alpha_bar_0)
  show ?thesis
    using 1 2 3 by (simp add: new_engine_alpha_bar new_engine_jumps ab_def)
qed

theorem forward_jump_params_reference_witness:
  "valid_beta [0, 1 / 2, 1 / 2]
   \<and> forward_jump_params
        (new_engine \<lparr>beta = [0, 1 / 2, 1 / 2], scale = [Some 1, Some (sqrt (1 / 2)), Some (sqrt (1 / 2))],
           var = [0, 1 / 2, 1 / 2]\<rparr> 0 ''cpu'') 2 = Inr (Some (sqrt (1 / 4)), 3 / 4)"
proof -
  have v: "valid_beta (beta \<lparr>beta = [0, 1 / 2, 1 / 2],
      scale = [Some 1, Some (sqrt (1 / 2)), Some (sqrt (1 / 2))], var = [0, 1 / 2, 1 / 2]\<rparr>)"
    by (simp add: valid_beta_def)
  have ab: "calc_alpha_bar (alpha_from_beta [0, 1 / 2, 1 / 2]) = [1, 1 / 2, 1 / 4]"
    by (simp add: calc_alpha_bar_def alpha_from_beta_def cumprod_def upt_rec [of _ "numeral _"] upt_rec [of 0])
  from forward_jump_params_reference [OF v, of 2 0 "''cpu''"] v show ?thesis
    by (simp add: ab)
qed


section \<open>Model initialisation\<close>

text \<open>
  C10. \<open>default_model_init\<close> returns the model that \<open>prepare_model(model, device)\<close>
  returned, after \<open>init_weights\<close> was applied to it with \<open>model_config.weight_init\<close>,
  and \<open>apply_sn\<close> is applied to it exactly when \<open>model_config.spectr_norm\<close> holds;
  two configurations that agree on these two fields give the same run. (The function
  returns when the three calls return; an exception of one of them is the result.)
\<close>

theorem default_model_init_calls:
  "(default_model_init prepare_model init_weights apply_sn model cfg dev s = Inr (m', s') \<longleftrightarrow>
      (\<exists>s1 s2. prepare_model model dev s = Inr (m', s1)
         \<and> init_weights m' (weight_init cfg) s1 = Inr s2
         \<and> (if spectr_norm cfg then apply_sn m' s2 = Inr s' else s' = s2)))
   \<and> (weight_init cfg = weight_init cfg' \<and> spectr_norm cfg = spectr_norm cfg' \<longrightarrow>
        default_model_init prepare_model init_weights apply_sn model cfg dev s =
        default_model_init prepare_model init_weights apply_sn model cfg' dev s)"
  by (auto simp: default_model_init_def split: sum.splits prod.splits)


theorem default_model_init_calls_witness:
  "default_model_init
     (\<lambda>m d s. Inr (m, s @ [''prepare_model'']))
     (\<lambda>m w s. Inr (s @ [''init_weights'']))
     (\<lambda>m s. Inr (s @ [''apply_sn'']))
     (7::nat) \<lparr>weight_init = ''normal'', spectr_norm = True\<rparr> ''cpu'' [] =
     (Inr (7, [''prepare_model'', ''init_weights'', ''apply_sn'']) :: unit + nat \<times> string list)
   \<and> default_model_init
     (\<lambda>m d s. Inr (m, s @ [''prepare_model'']))
     (\<lambda>m w s. Inr (s @ [''init_weights'']))
     (\<lambda>m s. Inr (s @ [''apply_sn'']))
     (7::nat) \<lparr>weight_init = ''normal'', spectr_norm = False\<rparr> ''cpu'' [] =
     (Inr (7, [''prepare_model'', ''init_weights'']) :: unit + nat \<times> string list)"
proof -
  have 1: "default_model_init
     (\<lambda>m d s. Inr (m, s @ [''prepare_model'']))
     (\<lambda>m w s. Inr (s @ [''init_weights'']))
     (\<lambda>m s. Inr (s @ [''apply_sn'']))
     (7::nat) \<lparr>weight_init = ''normal'', spectr_norm = True\<rparr> ''cpu'' [] =
     (Inr (7, [''prepare_model'', ''init_weights'', ''apply_sn'']) :: unit + nat \<times> string list)"
    by (rule default_model_init_calls [THEN conjunct1, THEN iffD2]) simp
  have 2: "default_model_init
     (\<lambda>m d s. Inr (m, s @ [''prepare_model'']))
     (\<lambda>m w s. Inr (s @ [''init_weights'']))
     (\<lambda>m s. Inr (s @ [''apply_sn'']))
     (7::nat) \<lparr>weight_init = ''normal'', spectr_norm = False\<rparr> ''cpu'' [] =
     (Inr (7, [''prepare_model'', ''init_weights'']) :: unit + nat \<times> string list)"
    by (rule default_model_init_calls [THEN conjunct1, THEN iffD2]) simp
  from 1 2 show ?thesis by (rule conjI)
qed

end
